theory Spec2Isabelle
  imports Complex_Main "HOL-Library.Multiset"
begin

section \<open>Order-book entries\<close>

text \<open>
  The entries of \<^verbatim>\<open>orderbookResponse.bids\<close> are \<^verbatim>\<open>SignedOrder\<close> objects.  Amounts,
  fees, expiration and salt are BigNumber values holding exact integers in base units;
  identities are strings.
\<close>

record ec_signature =
  sig_v :: int
  sig_r :: string
  sig_s :: string

record signed_order =
  exchangeContractAddress :: string
  maker :: string
  taker :: string
  makerTokenAddress :: string
  takerTokenAddress :: string
  makerTokenAmount :: int
  takerTokenAmount :: int
  makerFee :: int
  takerFee :: int
  feeRecipient :: string
  expirationUnixTimestampSec :: int
  salt :: int
  ecSignature :: ec_signature

section \<open>The BigNumber operations used by the ranking comparator\<close>

text \<open>
  \<^verbatim>\<open>index.ts\<close> computes a rate as \<^verbatim>\<open>new BigNumber(a).div(new BigNumber(b))\<close> and
  compares two rates with \<^verbatim>\<open>comparedTo\<close>.  Both are methods of the bignumber.js
  dependency.  A BigNumber is NaN, plus or minus Infinity, or a finite decimal; \<^verbatim>\<open>div\<close>
  rounds the quotient to \<^verbatim>\<open>DECIMAL_PLACES\<close> decimal places with the rounding mode
  \<^verbatim>\<open>ROUND_HALF_UP\<close> (nearest neighbour, ties away from zero), the library default,
  which \<^verbatim>\<open>index.ts\<close> never reconfigures.  \<^verbatim>\<open>DECIMAL_PLACES\<close> (default 20) is global
  library configuration and is a parameter \<open>dp\<close> of the model.
\<close>

datatype bignumber = BN_NaN | BN_Infinity bool | BN_Finite rat

definition round_half_up :: "rat \<Rightarrow> int" where
  "round_half_up q = (if 0 \<le> q then \<lfloor>q + 1 / 2\<rfloor> else - \<lfloor>- q + 1 / 2\<rfloor>)"

definition round_dp :: "nat \<Rightarrow> rat \<Rightarrow> rat" where
  "round_dp dp q = of_int (round_half_up (q * 10 ^ dp)) / 10 ^ dp"

text \<open>
  \<^verbatim>\<open>x.div(y)\<close> for integer-valued operands: \<open>0 / 0\<close> is NaN, a non-zero value
  divided by zero is an infinity with the sign of the dividend, every other quotient is
  rounded to \<open>dp\<close> decimal places.
\<close>

definition bn_div :: "nat \<Rightarrow> int \<Rightarrow> int \<Rightarrow> bignumber" where
  "bn_div dp x y =
     (if y = 0 then (if x = 0 then BN_NaN else BN_Infinity (0 < x))
      else BN_Finite (round_dp dp (of_int x / of_int y)))"

text \<open>
  \<^verbatim>\<open>x.comparedTo(y)\<close>: \<open>1\<close>, \<open>-1\<close> or \<open>0\<close> as \<open>x\<close> is greater than, less than or
  equal to \<open>y\<close>, and \<^verbatim>\<open>null\<close> (here \<open>None\<close>) when either operand is NaN.
\<close>

fun comparedTo :: "bignumber \<Rightarrow> bignumber \<Rightarrow> int option" where
  "comparedTo BN_NaN _ = None"
| "comparedTo _ BN_NaN = None"
| "comparedTo (BN_Finite a) (BN_Finite b) =
     Some (if a < b then - 1 else if a = b then 0 else 1)"
| "comparedTo (BN_Infinity p) (BN_Infinity q) =
     Some (if p = q then 0 else if p then 1 else - 1)"
| "comparedTo (BN_Infinity p) (BN_Finite _) = Some (if p then 1 else - 1)"
| "comparedTo (BN_Finite _) (BN_Infinity q) = Some (if q then - 1 else 1)"

section \<open>Ranking the bids\<close>

text \<open>
  The comparator passed to \<^verbatim>\<open>sort\<close> in \<^verbatim>\<open>index.ts\<close>:
  \<^verbatim>\<open>
  (orderA, orderB) => {
      const orderRateA = (new BigNumber(orderA.makerTokenAmount)).div(new BigNumber(orderA.takerTokenAmount));
      const orderRateB = (new BigNumber(orderB.makerTokenAmount)).div(new BigNumber(orderB.takerTokenAmount));
      return orderRateB.comparedTo(orderRateA);
  }
  \<close>
\<close>

definition orderRate :: "nat \<Rightarrow> signed_order \<Rightarrow> bignumber" where
  "orderRate dp order = bn_div dp (makerTokenAmount order) (takerTokenAmount order)"

definition rate_comparator :: "nat \<Rightarrow> signed_order \<Rightarrow> signed_order \<Rightarrow> int option" where
  "rate_comparator dp orderA orderB =
     (let orderRateA = orderRate dp orderA;
          orderRateB = orderRate dp orderB
      in comparedTo orderRateB orderRateA)"

text \<open>
  \<^verbatim>\<open>Array.prototype.sort(comparefn)\<close>.  The value returned by the comparator is
  converted to a number (\<^verbatim>\<open>null\<close> becomes \<open>0\<close>); a negative value puts the first
  argument before the second, and elements that compare as \<open>0\<close> keep their relative
  order (the sort is stable, ECMAScript 2019).  The model is a stable insertion sort: for
  a consistent comparator every stable sort returns the same sequence.  For a comparator
  that is not consistent (a NaN rate compares as \<open>0\<close> with everything) ECMAScript leaves
  the order to the implementation: an engine may return another rearrangement than this
  model there, and only the fact that the result is a rearrangement of the input is
  used for such inputs.
\<close>

definition sort_compare :: "('a \<Rightarrow> 'a \<Rightarrow> int option) \<Rightarrow> 'a \<Rightarrow> 'a \<Rightarrow> int" where
  "sort_compare comparefn x y = (case comparefn x y of None \<Rightarrow> 0 | Some n \<Rightarrow> n)"

fun sort_insert :: "('a \<Rightarrow> 'a \<Rightarrow> int option) \<Rightarrow> 'a \<Rightarrow> 'a list \<Rightarrow> 'a list" where
  "sort_insert comparefn x [] = [x]"
| "sort_insert comparefn x (y # ys) =
     (if sort_compare comparefn x y \<le> 0 then x # y # ys
      else y # sort_insert comparefn x ys)"

fun array_sort :: "('a \<Rightarrow> 'a \<Rightarrow> int option) \<Rightarrow> 'a list \<Rightarrow> 'a list" where
  "array_sort comparefn [] = []"
| "array_sort comparefn (x # xs) = sort_insert comparefn x (array_sort comparefn xs)"


text \<open>\<^verbatim>\<open>const bestOrders = orderbookResponse.bids.sort(...)\<close>: the spec's \<open>rank\<close>.\<close>

definition bestOrders :: "nat \<Rightarrow> signed_order list \<Rightarrow> signed_order list" where
  "bestOrders dp bids = array_sort (rate_comparator dp) bids"

text \<open>A bid with the given maker and taker amounts and fixed other fields, for examples.\<close>

definition bid :: "int \<Rightarrow> int \<Rightarrow> signed_order" where
  "bid m t =
     \<lparr> exchangeContractAddress = ''0xe'', maker = ''0xa'', taker = ''0x0'',
       makerTokenAddress = ''0xweth'', takerTokenAddress = ''0xzrx'',
       makerTokenAmount = m, takerTokenAmount = t, makerFee = 0, takerFee = 0,
       feeRecipient = ''0x0'', expirationUnixTimestampSec = 2000000000, salt = 1,
       ecSignature = \<lparr> sig_v = 27, sig_r = ''0x1'', sig_s = ''0x2'' \<rparr> \<rparr>"


text \<open>
  The effective rate of the spec's data model: \<open>makerAmount / takerAmount\<close> as an exact
  rational.  It is the yardstick the comparator of the code is measured against.
\<close>

definition exact_rate :: "signed_order \<Rightarrow> rat" where
  "exact_rate order = of_int (makerTokenAmount order) / of_int (takerTokenAmount order)"

text \<open>
  Modelled from the spec: \<open>validate\<close> of the OrderBookAggregator, which has no counterpart
  in \<^verbatim>\<open>index.ts\<close>.  An entry is usable only if both amounts are positive, it expires
  after \<open>nowTimestamp\<close> and, optionally, its signature verifies; the signature check is
  the parameter \<open>signature_ok\<close>.
\<close>

definition validate :: "(signed_order \<Rightarrow> bool) \<Rightarrow> signed_order \<Rightarrow> int \<Rightarrow> bool" where
  "validate signature_ok entry nowTimestamp \<longleftrightarrow>
     0 < makerTokenAmount entry \<and> 0 < takerTokenAmount entry \<and>
     nowTimestamp < expirationUnixTimestampSec entry \<and> signature_ok entry"

subsection \<open>The sort acts on the fetched array itself\<close>

text \<open>
  Arrays are objects: \<^verbatim>\<open>orderbookResponse.bids\<close> holds a reference, and
  \<^verbatim>\<open>Array.prototype.sort\<close> rearranges the array behind that reference and returns the
  same reference.  The store maps references to array contents.
\<close>

type_synonym ref = nat


record orderbook_response =
  bids :: ref
  asks :: ref



section \<open>Planning a fill\<close>

text \<open>
  Modelled from the spec: \<open>planFill\<close> of the FillExecutor.  \<^verbatim>\<open>index.ts\<close> only calls
  \<^verbatim>\<open>zeroEx.exchange.fillOrdersUpToAsync(bestOrders, zrxAmount, true, zrxOwnerAddress)\<close>;
  the body of that function is not part of the repository.  The walk follows the spec:
  entries are taken in order while the running total is below the target; the entry that
  would cross the target receives the remainder when \<open>allowPartial\<close> holds and its full
  amount otherwise; running out of entries below the target is \<open>InsufficientLiquidity\<close>;
  a target that is not positive is \<open>InvalidTarget\<close>.
\<close>

datatype fill_error = InvalidTarget | InsufficientLiquidity

type_synonym ranked_fill_plan = "(signed_order \<times> int) list"

fun walk_fill :: "signed_order list \<Rightarrow> int \<Rightarrow> int \<Rightarrow> bool \<Rightarrow> ranked_fill_plan option" where
  "walk_fill [] running target allowPartial = (if target \<le> running then Some [] else None)"
| "walk_fill (entry # rest) running target allowPartial =
     (if target \<le> running then Some []
      else
        let full = takerTokenAmount entry;
            allocated = (if target < running + full \<and> allowPartial then target - running else full)
        in map_option ((#) (entry, allocated))
             (walk_fill rest (running + allocated) target allowPartial))"

definition planFill :: "signed_order list \<Rightarrow> int \<Rightarrow> bool \<Rightarrow> fill_error + ranked_fill_plan" where
  "planFill rankedEntries targetTakerQuantity allowPartial =
     (if targetTakerQuantity \<le> 0 then Inl InvalidTarget
      else case walk_fill rankedEntries 0 targetTakerQuantity allowPartial of
             None \<Rightarrow> Inl InsufficientLiquidity
           | Some plan \<Rightarrow> Inr plan)"

definition total_allocated :: "ranked_fill_plan \<Rightarrow> int" where
  "total_allocated plan = sum_list (map snd plan)"

definition total_available :: "signed_order list \<Rightarrow> int" where
  "total_available entries = sum_list (map takerTokenAmount entries)"

text \<open>
  The shape of a plan produced from running total \<open>running\<close>: the entries of the plan
  are a prefix of the sequence, every entry but the last is allocated in full and leaves
  the total below the target, and the last entry reaches the target, with the remainder
  when partial fills are allowed and with its full amount otherwise.
\<close>

definition crossing_plan :: "signed_order list \<Rightarrow> int \<Rightarrow> int \<Rightarrow> bool \<Rightarrow> ranked_fill_plan \<Rightarrow> bool" where
  "crossing_plan es running target ap plan \<longleftrightarrow>
     plan \<noteq> [] \<and> map fst plan = take (length plan) es \<and>
     (\<forall>p\<in>set (butlast plan). snd p = takerTokenAmount (fst p)) \<and>
     running + sum_list (map snd (butlast plan)) < target \<and>
     snd (last plan) \<le> takerTokenAmount (fst (last plan)) \<and>
     (ap \<longrightarrow> snd (last plan) = target - (running + sum_list (map snd (butlast plan)))) \<and>
     (\<not> ap \<longrightarrow> snd (last plan) = takerTokenAmount (fst (last plan))) \<and>
     target \<le> running + sum_list (map snd plan)"

section \<open>Creating and submitting orders\<close>

text \<open>
  Orders under construction are plain JavaScript objects combined with the spread syntax,
  so they are modelled as finite maps from property names to values: \<^verbatim>\<open>{...a, ...b}\<close>
  has the properties of both objects, and a property of \<open>b\<close> replaces the property of
  \<open>a\<close> with the same name.
\<close>

datatype jsval = JString string | JBigNumber int | JSignature ec_signature

type_synonym obj = "string \<rightharpoonup> jsval"

definition spread :: "obj \<Rightarrow> obj \<Rightarrow> obj" where
  "spread a b = a ++ b"

definition toBaseUnitAmount :: "int \<Rightarrow> nat \<Rightarrow> int" where
  "toBaseUnitAmount amount decimals = amount * 10 ^ decimals"

definition DECIMALS :: nat where
  "DECIMALS = 18"

text \<open>The contract addresses and the null address read from \<^verbatim>\<open>zeroEx\<close> at start-up.\<close>

record addresses =
  EXCHANGE_ADDRESS :: string
  WETH_ADDRESS :: string
  ZRX_ADDRESS :: string
  NULL_ADDRESS :: string

text \<open>
  The object literal \<^verbatim>\<open>feesRequest\<close>.  \<open>now\<close> is the value of \<^verbatim>\<open>Date.now()\<close>
  (milliseconds since the epoch, an integer below \<open>2^53\<close>, so the addition is exact) and
  \<open>salt_value\<close> the value of \<^verbatim>\<open>ZeroEx.generatePseudoRandomSalt()\<close>.
\<close>

definition feesRequest :: "addresses \<Rightarrow> string \<Rightarrow> nat \<Rightarrow> int \<Rightarrow> int \<Rightarrow> obj" where
  "feesRequest env address index now salt_value =
     (let exchangeRate = (int index + 1) * 10;
          maker_amount = toBaseUnitAmount 5 DECIMALS;
          taker_amount = maker_amount * exchangeRate
      in [''exchangeContractAddress'' \<mapsto> JString (EXCHANGE_ADDRESS env),
          ''maker'' \<mapsto> JString address,
          ''taker'' \<mapsto> JString (NULL_ADDRESS env),
          ''makerTokenAddress'' \<mapsto> JString (WETH_ADDRESS env),
          ''takerTokenAddress'' \<mapsto> JString (ZRX_ADDRESS env),
          ''makerTokenAmount'' \<mapsto> JBigNumber maker_amount,
          ''takerTokenAmount'' \<mapsto> JBigNumber taker_amount,
          ''expirationUnixTimestampSec'' \<mapsto> JBigNumber (now + 3600000),
          ''salt'' \<mapsto> JBigNumber salt_value])"

text \<open>The property names of the declared types \<^verbatim>\<open>FeesRequest\<close> and \<^verbatim>\<open>FeesResponse\<close>.\<close>

definition economic_fields :: "string set" where
  "economic_fields =
     {''exchangeContractAddress'', ''maker'', ''taker'', ''makerTokenAddress'',
      ''takerTokenAddress'', ''makerTokenAmount'', ''takerTokenAmount'',
      ''expirationUnixTimestampSec'', ''salt''}"

definition fee_fields :: "string set" where
  "fee_fields = {''makerFee'', ''takerFee'', ''feeRecipient''}"

text \<open>\<^verbatim>\<open>const order: Order = { ...feesRequest, ...feesResponse }\<close>\<close>

definition merge_fees :: "obj \<Rightarrow> obj \<Rightarrow> obj" where
  "merge_fees request response = spread request response"

text \<open>
  The collaborators of one order creation.  A rejected promise is the \<open>Inl\<close> of a
  result; the failure kinds are those of the spec, with one more for a rejected
  submission.
\<close>

datatype failure = FeeRequestFailure | SigningFailure | SubmitFailure




text \<open>
  \<^verbatim>\<open>Promise.all\<close>: fulfilled with all values when every promise is fulfilled, rejected
  with the reason of the promise that rejects first.  Which one rejects first depends on
  scheduling; \<open>settle_order\<close> lists the task indices in the order in which they settle,
  and a task it does not list settles after the listed ones, in index order.  A rejection
  does not cancel the other tasks.
\<close>

definition rejections :: "nat list \<Rightarrow> (failure + 'a) list \<Rightarrow> failure list" where
  "rejections settle_order outcomes =
     concat (map (\<lambda>i. if i < length outcomes
                       then (case outcomes ! i of Inl err \<Rightarrow> [err] | Inr _ \<Rightarrow> [])
                       else []) settle_order)"



subsection \<open>The tasks as interleaved steps\<close>








subsection \<open>Concrete collaborators for the examples\<close>

text \<open>
  A relayer that quotes fixed fees and a signer that always signs; and a pair that fails
  the fee request of maker \<open>0xa\<close> and the signature of maker \<open>0xb\<close>.
\<close>

definition example_env :: addresses where
  "example_env = \<lparr> EXCHANGE_ADDRESS = ''0xe'', WETH_ADDRESS = ''0xweth'',
                    ZRX_ADDRESS = ''0xzrx'', NULL_ADDRESS = ''0x0'' \<rparr>"

definition example_fees :: obj where
  "example_fees = [''makerFee'' \<mapsto> JBigNumber 7, ''takerFee'' \<mapsto> JBigNumber 3,
                   ''feeRecipient'' \<mapsto> JString ''0xf'']"






section \<open>Rounding to a fixed number of decimal places\<close>

lemma round_half_up_nonneg: "0 \<le> q \<Longrightarrow> 0 \<le> round_half_up q"
  by (simp add: round_half_up_def)

lemma round_half_up_nonpos: "q < 0 \<Longrightarrow> round_half_up q \<le> 0"
  by (simp add: round_half_up_def)

lemma round_half_up_mono:
  assumes "q \<le> q'"
  shows "round_half_up q \<le> round_half_up q'"
proof (cases "0 \<le> q")
  case True
  with assms have "0 \<le> q'" by simp
  with True assms show ?thesis
    by (simp add: round_half_up_def floor_mono)
next
  case neg: False
  show ?thesis
  proof (cases "0 \<le> q'")
    case True
    from neg have "round_half_up q \<le> 0" by (simp add: round_half_up_nonpos)
    also from True have "0 \<le> round_half_up q'" by (rule round_half_up_nonneg)
    finally show ?thesis .
  next
    case False
    from assms have "\<lfloor>- q' + 1 / 2\<rfloor> \<le> \<lfloor>- q + 1 / 2\<rfloor>"
      by (intro floor_mono) simp
    with neg False show ?thesis
      by (simp add: round_half_up_def)
  qed
qed

lemma round_half_up_of_int: "round_half_up (of_int n) = n"
proof (cases "0 \<le> n")
  case True
  then have "\<lfloor>(of_int n :: rat) + 1 / 2\<rfloor> = n"
    by (simp add: floor_eq_iff)
  with True show ?thesis by (simp add: round_half_up_def)
next
  case False
  have "\<lfloor>- (of_int n :: rat) + 1 / 2\<rfloor> = - n"
    by (simp add: floor_eq_iff)
  with False show ?thesis by (simp add: round_half_up_def)
qed

text \<open>Moving a value up by one unit moves its rounding up by at least one unit.\<close>

lemma round_half_up_step: "round_half_up q + 1 \<le> round_half_up (q + 1)"
proof (cases "0 \<le> q")
  case True
  have "\<lfloor>q + 1 + 1 / 2\<rfloor> = \<lfloor>q + 1 / 2\<rfloor> + 1"
    by (metis add.assoc add.commute floor_add_int of_int_1)
  with True show ?thesis by (simp add: round_half_up_def)
next
  case neg: False
  show ?thesis
  proof (cases "0 \<le> q + 1")
    case False
    have "\<lfloor>- q + 1 / 2\<rfloor> = \<lfloor>- (q + 1) + 1 / 2\<rfloor> + 1"
      by (simp add: floor_eq_iff) linarith
    with neg False show ?thesis by (simp add: round_half_up_def)
  next
    case True
    show ?thesis
    proof (cases "q < - (1 / 2)")
      case True
      then have "1 \<le> \<lfloor>- q + 1 / 2\<rfloor>" by (simp add: le_floor_iff)
      then have "round_half_up q + 1 \<le> 0" using neg by (simp add: round_half_up_def)
      also have "0 \<le> round_half_up (q + 1)" using \<open>0 \<le> q + 1\<close> by (rule round_half_up_nonneg)
      finally show ?thesis .
    next
      case False
      then have "1 \<le> \<lfloor>q + 1 + 1 / 2\<rfloor>" by (simp add: le_floor_iff)
      then have "1 \<le> round_half_up (q + 1)" using True by (simp add: round_half_up_def)
      moreover have "round_half_up q \<le> 0" using neg by (simp add: round_half_up_nonpos)
      ultimately show ?thesis by simp
    qed
  qed
qed

lemma round_dp_mono: "q \<le> q' \<Longrightarrow> round_dp dp q \<le> round_dp dp q'"
  unfolding round_dp_def
  by (intro divide_right_mono round_half_up_mono mult_right_mono) (simp_all add: round_half_up_mono)

lemma round_dp_of_int: "round_dp dp (of_int n) = of_int n"
proof -
  have "of_int n * (10::rat) ^ dp = of_int (n * 10 ^ dp)" by simp
  then have "round_half_up (of_int n * 10 ^ dp) = n * 10 ^ dp"
    by (simp only: round_half_up_of_int)
  then show ?thesis by (simp add: round_dp_def)
qed

text \<open>Two values at least \<open>10^-dp\<close> apart have different roundings.\<close>

lemma round_dp_gap:
  assumes "q + 1 / 10 ^ dp \<le> q'"
  shows "round_dp dp q < round_dp dp q'"
proof -
  have "(q + 1 / 10 ^ dp) * 10 ^ dp \<le> q' * 10 ^ dp"
    using assms by (intro mult_right_mono) simp_all
  then have "q * 10 ^ dp + 1 \<le> q' * 10 ^ dp"
    by (simp add: distrib_right)
  then have "round_half_up (q * 10 ^ dp + 1) \<le> round_half_up (q' * 10 ^ dp)"
    by (rule round_half_up_mono)
  with round_half_up_step [of "q * 10 ^ dp"]
  have "round_half_up (q * 10 ^ dp) < round_half_up (q' * 10 ^ dp)" by simp
  then show ?thesis
    by (simp add: round_dp_def divide_strict_right_mono)
qed

lemma ten_power_mod_three: "(10::int) ^ dp mod 3 = 1"
proof -
  have "(10::int) ^ dp mod 3 = (10 mod 3) ^ dp mod 3"
    by (simp only: power_mod)
  then show ?thesis by simp
qed

lemma round_half_up_between:
  assumes "of_int k \<le> q" and "q < of_int k + 1 / 2" and "0 \<le> k"
  shows "round_half_up q = k"
proof -
  from assms(3) have "(0::rat) \<le> of_int k" by simp
  with assms(1) have "0 \<le> q" by simp
  moreover from assms have "\<lfloor>q + 1 / 2\<rfloor> = k"
    by (simp add: floor_eq_iff)
  ultimately show ?thesis by (simp add: round_half_up_def)
qed

section \<open>Properties of the comparator and of the sort\<close>

lemma orderRate_finite:
  "takerTokenAmount e \<noteq> 0 \<Longrightarrow> orderRate dp e = BN_Finite (round_dp dp (exact_rate e))"
  by (simp add: orderRate_def bn_div_def exact_rate_def)

lemma sort_compare_finite:
  assumes "takerTokenAmount a \<noteq> 0" and "takerTokenAmount b \<noteq> 0"
  shows "sort_compare (rate_comparator dp) a b =
           (if round_dp dp (exact_rate b) < round_dp dp (exact_rate a) then - 1
            else if round_dp dp (exact_rate b) = round_dp dp (exact_rate a) then 0 else 1)"
  using assms by (simp add: sort_compare_def rate_comparator_def orderRate_finite)

lemma mset_sort_insert: "mset (sort_insert c x ys) = add_mset x (mset ys)"
  by (induction ys) simp_all

lemma mset_array_sort: "mset (array_sort c xs) = mset xs"
  by (induction xs) (simp_all add: mset_sort_insert)

lemma set_array_sort: "set (array_sort c xs) = set xs"
  by (metis mset_array_sort set_mset_mset)

text \<open>
  On entries with a non-zero taker amount the comparator is consistent, and the sort is
  the stable sort by the rounded rate, largest first.
\<close>

lemma sort_insert_insort_key:
  assumes "takerTokenAmount x \<noteq> 0" and "\<forall>y\<in>set ys. takerTokenAmount y \<noteq> 0"
  shows "sort_insert (rate_comparator dp) x ys =
           insort_key (\<lambda>e. - round_dp dp (exact_rate e)) x ys"
  using assms by (induction ys) (simp_all add: sort_compare_finite)

lemma bestOrders_sort_key:
  assumes "\<forall>e\<in>set entries. takerTokenAmount e \<noteq> 0"
  shows "bestOrders dp entries = sort_key (\<lambda>e. - round_dp dp (exact_rate e)) entries"
  using assms
proof (induction entries)
  case Nil
  show ?case by (simp add: bestOrders_def)
next
  case (Cons x xs)
  then have ih: "array_sort (rate_comparator dp) xs = sort_key (\<lambda>e. - round_dp dp (exact_rate e)) xs"
    by (simp add: bestOrders_def)
  have "\<forall>y\<in>set (array_sort (rate_comparator dp) xs). takerTokenAmount y \<noteq> 0"
    using Cons.prems by (simp add: set_array_sort)
  with Cons.prems
  have "sort_insert (rate_comparator dp) x (array_sort (rate_comparator dp) xs) =
          insort_key (\<lambda>e. - round_dp dp (exact_rate e)) x (array_sort (rate_comparator dp) xs)"
    by (intro sort_insert_insort_key) simp_all
  with ih show ?case by (simp add: bestOrders_def)
qed

lemma floor_rat_numeral:
  "\<lfloor>(numeral a :: rat) / numeral b\<rfloor> = numeral a div numeral b"
  using floor_divide_of_int_eq [of "numeral a" "numeral b", where ?'a = rat] by simp

lemma orderRate_whole:
  assumes "takerTokenAmount e \<noteq> 0" and "makerTokenAmount e = k * takerTokenAmount e"
  shows "orderRate dp e = BN_Finite (of_int k)"
proof -
  from assms have "exact_rate e = of_int k" by (simp add: exact_rate_def)
  with assms(1) show ?thesis by (simp add: orderRate_finite round_dp_of_int)
qed

lemma bestOrders_descending:
  assumes "\<forall>e\<in>set entries. takerTokenAmount e \<noteq> 0"
  shows "sorted_wrt (\<lambda>x y. round_dp dp (exact_rate y) \<le> round_dp dp (exact_rate x))
           (bestOrders dp entries)"
proof -
  have "sorted (map (\<lambda>e. - round_dp dp (exact_rate e)) (bestOrders dp entries))"
    using assms by (simp add: bestOrders_sort_key)
  then show ?thesis by (simp add: sorted_map)
qed

lemma bestOrders_descending_exact:
  assumes "\<forall>e\<in>set entries. takerTokenAmount e \<noteq> 0"
  shows "sorted_wrt (\<lambda>x y. exact_rate y < exact_rate x + 1 / 10 ^ dp) (bestOrders dp entries)"
proof -
  have "sorted_wrt (\<lambda>x y. round_dp dp (exact_rate y) \<le> round_dp dp (exact_rate x))
          (bestOrders dp entries)"
    using assms by (rule bestOrders_descending)
  moreover have "exact_rate y < exact_rate x + 1 / 10 ^ dp"
    if "round_dp dp (exact_rate y) \<le> round_dp dp (exact_rate x)" for x y
  proof (rule ccontr)
    assume "\<not> exact_rate y < exact_rate x + 1 / 10 ^ dp"
    then have "exact_rate x + 1 / 10 ^ dp \<le> exact_rate y" by simp
    then have "round_dp dp (exact_rate x) < round_dp dp (exact_rate y)"
      by (rule round_dp_gap)
    with that show False by simp
  qed
  ultimately show ?thesis
    by (rule sorted_wrt_mono_rel [rotated]) blast
qed

text \<open>
  Claim C5 as stated fails in its general part: the output is not always in descending
  order of the exact rate \<open>makerAmount / takerAmount\<close>.  With 20 decimal places two
  entries whose rates differ by \<open>1 / (7 * 10^21)\<close> compare as equal, and the one with
  the lower rate, fetched first, stays in front.
\<close>

theorem rank_not_descending_counterexample:
  "exact_rate (bid 1000000000000000000000 7000000000000000000000)
     < exact_rate (bid 1000000000000000000001 7000000000000000000000) \<and>
   bestOrders 20 [bid 1000000000000000000000 7000000000000000000000,
                  bid 1000000000000000000001 7000000000000000000000,
                  bid 1 10]
     = [bid 1000000000000000000000 7000000000000000000000,
        bid 1000000000000000000001 7000000000000000000000,
        bid 1 10]"
  by (simp add: exact_rate_def bid_def bestOrders_def sort_compare_def rate_comparator_def
      orderRate_def bn_div_def round_dp_def round_half_up_def floor_rat_numeral)

text \<open>
  Claim C5, amended.  \<open>rank\<close> orders the entries by the rate as the code computes it,
  largest first: three entries with the (makerAmount, takerAmount) pairs (500,10),
  (450,10), (600,10) come out in the order (600,10), (500,10), (450,10), whatever the
  number of decimal places of the division; and for entries with a non-zero taker amount
  the output is descending in the rate rounded to \<open>dp\<close> places, so that no entry stands
  before an entry whose exact rate is larger by \<open>10^-dp\<close> or more.
\<close>

theorem rank_descending_example:
  "(makerTokenAmount a = 500 \<and> takerTokenAmount a = 10 \<and>
    makerTokenAmount b = 450 \<and> takerTokenAmount b = 10 \<and>
    makerTokenAmount c = 600 \<and> takerTokenAmount c = 10
      \<longrightarrow> bestOrders dp [a, b, c] = [c, a, b]) \<and>
   ((\<forall>e\<in>set entries. takerTokenAmount e \<noteq> 0)
      \<longrightarrow> sorted_wrt (\<lambda>x y. round_dp dp (exact_rate y) \<le> round_dp dp (exact_rate x))
            (bestOrders dp entries) \<and>
          sorted_wrt (\<lambda>x y. exact_rate y < exact_rate x + 1 / 10 ^ dp)
            (bestOrders dp entries))"
proof (intro conjI impI)
  assume h: "makerTokenAmount a = 500 \<and> takerTokenAmount a = 10 \<and>
    makerTokenAmount b = 450 \<and> takerTokenAmount b = 10 \<and>
    makerTokenAmount c = 600 \<and> takerTokenAmount c = 10"
  have ra: "orderRate dp a = BN_Finite 50"
    using orderRate_whole [of a 50 dp] h by simp
  have rb: "orderRate dp b = BN_Finite 45"
    using orderRate_whole [of b 45 dp] h by simp
  have rc: "orderRate dp c = BN_Finite 60"
    using orderRate_whole [of c 60 dp] h by simp
  show "bestOrders dp [a, b, c] = [c, a, b]"
    by (simp add: bestOrders_def sort_compare_def rate_comparator_def ra rb rc)
next
  assume t: "\<forall>e\<in>set entries. takerTokenAmount e \<noteq> 0"
  then show "sorted_wrt (\<lambda>x y. round_dp dp (exact_rate y) \<le> round_dp dp (exact_rate x))
            (bestOrders dp entries)"
    by (rule bestOrders_descending)
  from t show "sorted_wrt (\<lambda>x y. exact_rate y < exact_rate x + 1 / 10 ^ dp)
            (bestOrders dp entries)"
    by (rule bestOrders_descending_exact)
qed

theorem rank_descending_example_witness:
  "makerTokenAmount (bid 500 10) = 500 \<and> takerTokenAmount (bid 500 10) = 10 \<and>
   makerTokenAmount (bid 450 10) = 450 \<and> takerTokenAmount (bid 450 10) = 10 \<and>
   makerTokenAmount (bid 600 10) = 600 \<and> takerTokenAmount (bid 600 10) = 10 \<and>
   bestOrders 20 [bid 500 10, bid 450 10, bid 600 10] = [bid 600 10, bid 500 10, bid 450 10] \<and>
   sorted_wrt (\<lambda>x y. round_dp 20 (exact_rate y) \<le> round_dp 20 (exact_rate x))
     (bestOrders 20 [bid 500 10, bid 450 10, bid 600 10])"
proof -
  have amounts:
    "makerTokenAmount (bid 500 10) = 500 \<and> takerTokenAmount (bid 500 10) = 10 \<and>
     makerTokenAmount (bid 450 10) = 450 \<and> takerTokenAmount (bid 450 10) = 10 \<and>
     makerTokenAmount (bid 600 10) = 600 \<and> takerTokenAmount (bid 600 10) = 10"
    by (simp add: bid_def)
  have takers: "\<forall>e\<in>set [bid 500 10, bid 450 10, bid 600 10]. takerTokenAmount e \<noteq> 0"
    by (simp add: bid_def)
  from rank_descending_example [of "bid 500 10" "bid 450 10" "bid 600 10" 20
      "[bid 500 10, bid 450 10, bid 600 10]"] amounts takers
  show ?thesis by blast
qed

text \<open>
  Claim C1 as stated fails: the comparator divides with rounding to \<open>dp\<close> decimal
  places.  With the default 20 places, two entries whose exact rates differ by
  \<open>1 / (3 * 10^21)\<close> compare as equal, and the sort leaves the entry with the lower
  rate in front.
\<close>

theorem comparator_rounding_counterexample:
  "exact_rate (bid 1000000000000000000000 3000000000000000000000)
     < exact_rate (bid 1000000000000000000001 3000000000000000000000) \<and>
   rate_comparator 20 (bid 1000000000000000000001 3000000000000000000000)
     (bid 1000000000000000000000 3000000000000000000000) = Some 0 \<and>
   bestOrders 20 [bid 1000000000000000000000 3000000000000000000000,
                  bid 1000000000000000000001 3000000000000000000000]
     = [bid 1000000000000000000000 3000000000000000000000,
        bid 1000000000000000000001 3000000000000000000000]"
  by (simp add: exact_rate_def bid_def bestOrders_def sort_compare_def rate_comparator_def
      orderRate_def bn_div_def round_dp_def round_half_up_def floor_rat_numeral)

text \<open>
  The masking does not depend on the default precision: for every number \<open>dp\<close> of decimal
  places there are two entries with different exact rates that compare as equal.
\<close>

lemma rounding_masks_at_every_precision:
  fixes dp :: nat
  defines "a \<equiv> bid (10 ^ (dp + 1) + 1) (3 * 10 ^ (dp + 1))"
    and "b \<equiv> bid (10 ^ (dp + 1)) (3 * 10 ^ (dp + 1))"
  shows "exact_rate b < exact_rate a \<and> rate_comparator dp a b = Some 0"
proof -
  define k :: int where "k = 10 ^ dp div 3"
  have P: "(10::int) ^ dp = 3 * k + 1"
    using ten_power_mod_three [of dp] unfolding k_def
    by (metis mult_div_mod_eq)
  then have Pr: "(10::rat) ^ dp = 3 * of_int k + 1"
    by (metis of_int_1 of_int_add of_int_mult of_int_numeral of_int_power)
  have k0: "0 \<le> k" unfolding k_def by (simp add: pos_imp_zdiv_nonneg_iff)
  have ea: "exact_rate a = (10 * 10 ^ dp + 1) / (30 * 10 ^ dp)"
    by (simp add: a_def bid_def exact_rate_def)
  have eb: "exact_rate b = 1 / 3"
    by (simp add: b_def bid_def exact_rate_def)
  have "exact_rate a * 10 ^ dp = (10 * 10 ^ dp + 1) / 30"
    unfolding ea by simp
  also have "\<dots> = of_int k + 11 / 30"
    unfolding Pr by (simp add: field_simps)
  finally have xa: "exact_rate a * 10 ^ dp = of_int k + 11 / 30" .
  have xb: "exact_rate b * 10 ^ dp = of_int k + 1 / 3"
    unfolding eb by (simp add: Pr field_simps)
  have "round_half_up (exact_rate a * 10 ^ dp) = k"
    unfolding xa using k0 by (intro round_half_up_between) simp_all
  moreover have "round_half_up (exact_rate b * 10 ^ dp) = k"
    unfolding xb using k0 by (intro round_half_up_between) simp_all
  ultimately have same: "round_dp dp (exact_rate a) = round_dp dp (exact_rate b)"
    by (simp add: round_dp_def)
  have ta: "takerTokenAmount a \<noteq> 0" and tb: "takerTokenAmount b \<noteq> 0"
    by (simp_all add: a_def b_def bid_def)
  have "exact_rate b < exact_rate a"
    unfolding ea eb by (simp add: field_simps)
  moreover have "rate_comparator dp a b = Some 0"
    using ta tb same by (simp add: rate_comparator_def orderRate_finite)
  ultimately show ?thesis by simp
qed

text \<open>
  Claim C1, amended.  For entries with non-zero taker amounts the comparator compares the
  quotients rounded to \<open>dp\<close> decimal places.  It never inverts the exact order: when
  the exact rate of \<open>a\<close> is larger, \<open>a\<close> is never put after \<open>b\<close> by the comparator;
  a strict verdict agrees with the exact order; and rates that differ by at least
  \<open>10^-dp\<close> always get a strict verdict.  Rates closer than that may compare as equal.
\<close>

theorem comparator_rounded_order:
  assumes "takerTokenAmount a \<noteq> 0" and "takerTokenAmount b \<noteq> 0"
  shows "rate_comparator dp a b =
           Some (if round_dp dp (exact_rate b) < round_dp dp (exact_rate a) then - 1
                 else if round_dp dp (exact_rate b) = round_dp dp (exact_rate a) then 0 else 1) \<and>
         (exact_rate b < exact_rate a \<longrightarrow> sort_compare (rate_comparator dp) a b \<le> 0) \<and>
         (sort_compare (rate_comparator dp) a b < 0 \<longrightarrow> exact_rate b < exact_rate a) \<and>
         (exact_rate b + 1 / 10 ^ dp \<le> exact_rate a \<longrightarrow> sort_compare (rate_comparator dp) a b < 0)"
proof (intro conjI impI)
  show "rate_comparator dp a b =
           Some (if round_dp dp (exact_rate b) < round_dp dp (exact_rate a) then - 1
                 else if round_dp dp (exact_rate b) = round_dp dp (exact_rate a) then 0 else 1)"
    using assms by (simp add: rate_comparator_def orderRate_finite)
next
  assume "exact_rate b < exact_rate a"
  then have "round_dp dp (exact_rate b) \<le> round_dp dp (exact_rate a)"
    by (intro round_dp_mono) simp
  then show "sort_compare (rate_comparator dp) a b \<le> 0"
    using assms by (simp add: sort_compare_finite)
next
  assume "sort_compare (rate_comparator dp) a b < 0"
  then have lt: "round_dp dp (exact_rate b) < round_dp dp (exact_rate a)"
    using assms by (simp add: sort_compare_finite split: if_splits)
  show "exact_rate b < exact_rate a"
  proof (rule ccontr)
    assume "\<not> exact_rate b < exact_rate a"
    then have "round_dp dp (exact_rate a) \<le> round_dp dp (exact_rate b)"
      by (intro round_dp_mono) simp
    with lt show False by simp
  qed
next
  assume "exact_rate b + 1 / 10 ^ dp \<le> exact_rate a"
  then have "round_dp dp (exact_rate b) < round_dp dp (exact_rate a)"
    by (rule round_dp_gap)
  then show "sort_compare (rate_comparator dp) a b < 0"
    using assms by (simp add: sort_compare_finite)
qed

theorem comparator_rounded_order_witness:
  "takerTokenAmount (bid 600 10) \<noteq> 0 \<and> takerTokenAmount (bid 500 10) \<noteq> 0 \<and>
   exact_rate (bid 500 10) < exact_rate (bid 600 10) \<and>
   exact_rate (bid 500 10) + 1 / 10 ^ 20 \<le> exact_rate (bid 600 10) \<and>
   rate_comparator 20 (bid 600 10) (bid 500 10) = Some (- 1) \<and>
   sort_compare (rate_comparator 20) (bid 600 10) (bid 500 10) < 0"
proof -
  have t: "takerTokenAmount (bid 600 10) \<noteq> 0" "takerTokenAmount (bid 500 10) \<noteq> 0"
    by (simp_all add: bid_def)
  have e: "exact_rate (bid 500 10) = 50" "exact_rate (bid 600 10) = 60"
    by (simp_all add: bid_def exact_rate_def)
  show ?thesis
    using comparator_rounded_order [OF t, of 20] t by (simp add: e round_dp_of_int [of 20 50, simplified] round_dp_of_int [of 20 60, simplified])
qed

lemma floor_rat_half: "\<lfloor>(1::rat) / 2\<rfloor> = 0"
  by (simp add: floor_eq_iff)

text \<open>
  Claim C2 as stated fails on the code: \<^verbatim>\<open>index.ts\<close> sorts the fetched bids without
  filtering them.  An entry with maker amount \<open>0\<close>, an entry with taker amount \<open>0\<close>
  and an entry that expires at the current time \<open>2000000000\<close> all appear in the ranked
  output.
\<close>

theorem rank_keeps_invalid_counterexample:
  "makerTokenAmount (bid 0 10) \<le> 0 \<and> takerTokenAmount (bid 5 0) \<le> 0 \<and>
   expirationUnixTimestampSec (bid 500 10) \<le> 2000000000 \<and>
   bestOrders 20 [bid 0 10, bid 500 10, bid 5 0] = [bid 5 0, bid 500 10, bid 0 10]"
  by (simp add: bid_def bestOrders_def sort_compare_def rate_comparator_def
      orderRate_def bn_div_def round_dp_def round_half_up_def floor_rat_numeral floor_rat_half)

text \<open>
  Claim C2, amended.  An entry with a non-positive amount or with an expiration not after
  the current time is rejected by \<open>validate\<close> as the spec defines it; the ranking of the
  code applies no validation, and its output is a permutation of the fetched entries, so
  every fetched entry appears in it.
\<close>

theorem rank_is_permutation:
  "(makerTokenAmount entry \<le> 0 \<or> takerTokenAmount entry \<le> 0 \<or>
      expirationUnixTimestampSec entry \<le> nowTimestamp
        \<longrightarrow> \<not> validate signature_ok entry nowTimestamp) \<and>
   mset (bestOrders dp entries) = mset entries"
  by (auto simp: validate_def bestOrders_def mset_array_sort)

theorem rank_is_permutation_witness:
  "makerTokenAmount (bid 0 10) \<le> 0 \<and>
   \<not> validate (\<lambda>_. True) (bid 0 10) 1000 \<and>
   mset (bestOrders 20 [bid 500 10, bid 0 10]) = mset [bid 500 10, bid 0 10]"
proof -
  have "makerTokenAmount (bid 0 10) \<le> 0" by (simp add: bid_def)
  with rank_is_permutation [of "bid 0 10" 1000 "\<lambda>_. True" 20 "[bid 500 10, bid 0 10]"]
  show ?thesis by blast
qed












section \<open>Properties of the fill plan\<close>

lemma walk_fill_reached: "target \<le> running \<Longrightarrow> walk_fill es running target ap = Some []"
  by (cases es) simp_all

lemma crossing_plan_single:
  assumes "running < target" and "target \<le> running + a"
    and "a \<le> takerTokenAmount e"
    and "ap \<longrightarrow> a = target - running" and "\<not> ap \<longrightarrow> a = takerTokenAmount e"
  shows "crossing_plan (e # es) running target ap [(e, a)]"
  using assms by (simp add: crossing_plan_def)

lemma crossing_plan_cons:
  assumes "crossing_plan es (running + takerTokenAmount e) target ap rest"
  shows "crossing_plan (e # es) running target ap ((e, takerTokenAmount e) # rest)"
  using assms by (auto simp: crossing_plan_def add.assoc)

lemma walk_fill_plan:
  assumes "walk_fill es running target ap = Some plan" and "running < target"
  shows "crossing_plan es running target ap plan"
  using assms
proof (induction es arbitrary: running plan)
  case Nil
  then show ?case by simp
next
  case (Cons e es)
  define a where
    "a = (if target < running + takerTokenAmount e \<and> ap then target - running
          else takerTokenAmount e)"
  from Cons.prems obtain rest where
    plan: "plan = (e, a) # rest" and
    rest: "walk_fill es (running + a) target ap = Some rest"
    by (auto simp: a_def Let_def)
  show ?case
  proof (cases "target \<le> running + a")
    case True
    with rest have "rest = []" by (simp add: walk_fill_reached)
    moreover have "crossing_plan (e # es) running target ap [(e, a)]"
      using Cons.prems(2) True
      by (intro crossing_plan_single) (auto simp: a_def split: if_splits)
    ultimately show ?thesis by (simp add: plan)
  next
    case False
    then have a: "a = takerTokenAmount e"
      by (auto simp: a_def split: if_splits)
    from False rest have "crossing_plan es (running + a) target ap rest"
      by (intro Cons.IH) simp_all
    then show ?thesis
      unfolding plan a by (rule crossing_plan_cons)
  qed
qed

lemma walk_fill_none_short:
  "walk_fill es running target ap = None \<Longrightarrow> running + total_available es < target"
proof (induction es arbitrary: running)
  case Nil
  then show ?case by (simp add: total_available_def split: if_splits)
next
  case (Cons e es)
  from Cons.prems have below: "running < target"
    by (simp split: if_splits)
  show ?case
  proof (cases "target < running + takerTokenAmount e \<and> ap")
    case True
    with below Cons.prems show ?thesis
      by (simp add: walk_fill_reached)
  next
    case False
    with below Cons.prems
    have "walk_fill es (running + takerTokenAmount e) target ap = None"
      by (auto simp: Let_def split: if_splits)
    then have "running + takerTokenAmount e + total_available es < target"
      by (rule Cons.IH)
    then show ?thesis by (simp add: total_available_def)
  qed
qed

lemma walk_fill_short_none:
  assumes "\<forall>e\<in>set es. 0 < takerTokenAmount e" and "running + total_available es < target"
  shows "walk_fill es running target ap = None"
  using assms
proof (induction es arbitrary: running)
  case Nil
  then show ?case by (simp add: total_available_def)
next
  case (Cons e es)
  have "0 \<le> total_available es"
    using Cons.prems(1) unfolding total_available_def
    by (intro sum_list_nonneg) auto
  with Cons.prems have small: "running + takerTokenAmount e < target" and below: "running < target"
    by (simp_all add: total_available_def)
  from Cons.prems have "walk_fill es (running + takerTokenAmount e) target ap = None"
    by (intro Cons.IH) (simp_all add: total_available_def)
  with small below show ?case by (simp add: Let_def)
qed

lemma sum_list_butlast_last:
  "xs \<noteq> [] \<Longrightarrow> sum_list (map f xs) = sum_list (map f (butlast xs)) + f (last xs)"
  for f :: "'a \<Rightarrow> int"
  by (induction xs) auto

text \<open>
  Claim C3.  For a positive target, \<open>planFill\<close> succeeds whenever the available taker
  quantity covers the target, and a plan it returns takes the entries in order: the plan
  is a prefix of the ranked sequence, every entry before the last is allocated in full
  with the total still below the target, and the last entry is the one that reaches the
  target.  With \<open>allowPartial\<close> the last entry receives exactly the remainder and the
  total equals the target; without it the last entry receives its full amount and the
  total is at least the target.  On entries with taker amounts 10, 10, 10 and target 15
  the allocations are 10 and 5 (total 15) with partial fills and 10 and 10 (total 20)
  without, and the third entry is not in the plan.
\<close>

theorem planFill_crossing_entry:
  assumes "0 < target"
  shows "(target \<le> total_available es \<longrightarrow> (\<exists>plan. planFill es target ap = Inr plan)) \<and>
         (planFill es target ap = Inr plan \<longrightarrow>
            plan \<noteq> [] \<and> map fst plan = take (length plan) es \<and>
            (\<forall>p\<in>set (butlast plan). snd p = takerTokenAmount (fst p)) \<and>
            total_allocated (butlast plan) < target \<and>
            snd (last plan) \<le> takerTokenAmount (fst (last plan)) \<and>
            (ap \<longrightarrow> snd (last plan) = target - total_allocated (butlast plan) \<and>
                   total_allocated plan = target) \<and>
            (\<not> ap \<longrightarrow> snd (last plan) = takerTokenAmount (fst (last plan)) \<and>
                     target \<le> total_allocated plan)) \<and>
         (takerTokenAmount a = 10 \<and> takerTokenAmount b = 10 \<and> takerTokenAmount c = 10 \<longrightarrow>
            planFill [a, b, c] 15 True = Inr [(a, 10), (b, 5)] \<and>
            total_allocated [(a, 10), (b, 5)] = 15 \<and>
            planFill [a, b, c] 15 False = Inr [(a, 10), (b, 10)] \<and>
            total_allocated [(a, 10), (b, 10)] = 20)"
proof (intro conjI impI)
  assume "target \<le> total_available es"
  then have "walk_fill es 0 target ap \<noteq> None"
    using walk_fill_none_short [of es 0 target ap] by auto
  with assms show "\<exists>plan. planFill es target ap = Inr plan"
    by (auto simp: planFill_def)
next
  assume "planFill es target ap = Inr plan"
  with assms have "walk_fill es 0 target ap = Some plan"
    by (simp add: planFill_def split: option.splits)
  from walk_fill_plan [OF this assms]
  have cp: "crossing_plan es 0 target ap plan" .
  then have ne: "plan \<noteq> []" by (simp add: crossing_plan_def)
  then have total: "total_allocated plan = total_allocated (butlast plan) + snd (last plan)"
    unfolding total_allocated_def by (rule sum_list_butlast_last)
  from cp show "plan \<noteq> []" 
    and "map fst plan = take (length plan) es"
    and "\<forall>p\<in>set (butlast plan). snd p = takerTokenAmount (fst p)"
    and "total_allocated (butlast plan) < target"
    and "snd (last plan) \<le> takerTokenAmount (fst (last plan))"
    by (simp_all add: crossing_plan_def total_allocated_def)
  {
    assume ap
    with cp show "snd (last plan) = target - total_allocated (butlast plan)"
      by (simp add: crossing_plan_def total_allocated_def)
    with total show "total_allocated plan = target" by simp
  }
  {
    assume "\<not> ap"
    with cp show "snd (last plan) = takerTokenAmount (fst (last plan))"
      by (simp add: crossing_plan_def)
    from cp show "target \<le> total_allocated plan"
      by (simp add: crossing_plan_def total_allocated_def)
  }
next
  assume h: "takerTokenAmount a = 10 \<and> takerTokenAmount b = 10 \<and> takerTokenAmount c = 10"
  then show "planFill [a, b, c] 15 True = Inr [(a, 10), (b, 5)]"
    and "planFill [a, b, c] 15 False = Inr [(a, 10), (b, 10)]"
    by (simp_all add: planFill_def)
  show "total_allocated [(a, 10), (b, 5)] = 15" and "total_allocated [(a, 10), (b, 10)] = 20"
    by (simp_all add: total_allocated_def)
qed

theorem planFill_crossing_entry_witness:
  "(0::int) < 15 \<and>
   15 \<le> total_available [bid 600 10, bid 500 10, bid 450 10] \<and>
   planFill [bid 600 10, bid 500 10, bid 450 10] 15 True = Inr [(bid 600 10, 10), (bid 500 10, 5)] \<and>
   snd (last [(bid 600 10, 10), (bid 500 10, 5)])
     = 15 - total_allocated (butlast [(bid 600 10, 10), (bid 500 10, 5)]) \<and>
   total_allocated [(bid 600 10, 10), (bid 500 10, 5)] = 15 \<and>
   planFill [bid 600 10, bid 500 10, bid 450 10] 15 False = Inr [(bid 600 10, 10), (bid 500 10, 10)] \<and>
   snd (last [(bid 600 10, 10), (bid 500 10, 10)])
     = takerTokenAmount (fst (last [(bid 600 10, 10), (bid 500 10, 10)])) \<and>
   total_allocated [(bid 600 10, 10), (bid 500 10, 10)] = 20"
proof -
  let ?es = "[bid 600 10, bid 500 10, bid 450 10]"
  have pos: "(0::int) < 15" by simp
  have takers: "takerTokenAmount (bid 600 10) = 10 \<and> takerTokenAmount (bid 500 10) = 10 \<and>
      takerTokenAmount (bid 450 10) = 10"
    by (simp add: bid_def)
  have avail: "15 \<le> total_available ?es"
    by (simp add: total_available_def bid_def)
  note partial = planFill_crossing_entry [OF pos, of ?es True "[(bid 600 10, 10), (bid 500 10, 5)]"
      "bid 600 10" "bid 500 10" "bid 450 10"]
  note whole = planFill_crossing_entry [OF pos, of ?es False "[(bid 600 10, 10), (bid 500 10, 10)]"
      "bid 600 10" "bid 500 10" "bid 450 10"]
  from partial takers
  have p1: "planFill ?es 15 True = Inr [(bid 600 10, 10), (bid 500 10, 5)]"
    and p2: "total_allocated [(bid 600 10, 10), (bid 500 10, 5)] = 15"
    by blast+
  from partial p1
  have p3: "snd (last [(bid 600 10, 10), (bid 500 10, 5)])
      = 15 - total_allocated (butlast [(bid 600 10, 10), (bid 500 10, 5)])"
    by simp
  from whole takers
  have w1: "planFill ?es 15 False = Inr [(bid 600 10, 10), (bid 500 10, 10)]"
    and w2: "total_allocated [(bid 600 10, 10), (bid 500 10, 10)] = 20"
    by blast+
  from whole w1
  have w3: "snd (last [(bid 600 10, 10), (bid 500 10, 10)])
      = takerTokenAmount (fst (last [(bid 600 10, 10), (bid 500 10, 10)]))"
    by simp
  from pos avail p1 p2 p3 w1 w2 w3 show ?thesis by blast
qed

text \<open>
  Claim C4.  \<open>planFill\<close> fails with \<open>InvalidTarget\<close> for every target that is not
  positive, and with \<open>InsufficientLiquidity\<close> for every sequence of entries with
  positive taker amounts whose total is below a positive target; in both cases no plan
  is returned.
\<close>

theorem planFill_failures:
  "(target \<le> 0 \<longrightarrow>
      planFill es target ap = Inl InvalidTarget \<and> (\<forall>plan. planFill es target ap \<noteq> Inr plan)) \<and>
   (0 < target \<and> (\<forall>e\<in>set es. 0 < takerTokenAmount e) \<and> total_available es < target \<longrightarrow>
      planFill es target ap = Inl InsufficientLiquidity \<and>
      (\<forall>plan. planFill es target ap \<noteq> Inr plan))"
proof (intro conjI impI)
  assume "target \<le> 0"
  then show "planFill es target ap = Inl InvalidTarget"
    by (simp add: planFill_def)
  then show "\<forall>plan. planFill es target ap \<noteq> Inr plan" by simp
next
  assume h: "0 < target \<and> (\<forall>e\<in>set es. 0 < takerTokenAmount e) \<and> total_available es < target"
  then have "walk_fill es 0 target ap = None"
    by (intro walk_fill_short_none) simp_all
  with h show "planFill es target ap = Inl InsufficientLiquidity"
    by (simp add: planFill_def)
  then show "\<forall>plan. planFill es target ap \<noteq> Inr plan" by simp
qed

theorem planFill_failures_witness:
  "(0::int) \<le> 0 \<and>
   planFill [bid 600 10, bid 500 10, bid 450 10] 0 True = Inl InvalidTarget \<and>
   (0::int) < 31 \<and> 0 < takerTokenAmount (bid 600 10) \<and> 0 < takerTokenAmount (bid 500 10) \<and>
   0 < takerTokenAmount (bid 450 10) \<and>
   total_available [bid 600 10, bid 500 10, bid 450 10] < 31 \<and>
   planFill [bid 600 10, bid 500 10, bid 450 10] 31 True = Inl InsufficientLiquidity"
proof -
  let ?es = "[bid 600 10, bid 500 10, bid 450 10]"
  have takers: "\<forall>e\<in>set ?es. 0 < takerTokenAmount e"
    by (simp add: bid_def)
  have short: "total_available ?es < 31"
    by (simp add: total_available_def bid_def)
  from planFill_failures [of 0 ?es True]
  have a: "planFill ?es 0 True = Inl InvalidTarget" by simp
  from planFill_failures [of 31 ?es True] takers short
  have b: "planFill ?es 31 True = Inl InsufficientLiquidity" by simp
  from a b takers short show ?thesis by simp
qed

section \<open>Properties of order creation\<close>

lemma dom_example_fees: "dom example_fees \<subseteq> fee_fields"
  by (simp add: example_fees_def fee_fields_def)

text \<open>
  Claim C8 as stated fails: the spread copies every property of the response, so a
  response that carries \<open>makerTokenAmount\<close> next to the fees replaces the maker amount
  of the skeleton.
\<close>

theorem merge_fees_overwrite_counterexample:
  "feesRequest example_env ''0xa'' 0 1500000000000 42 ''makerTokenAmount''
     = Some (JBigNumber 5000000000000000000) \<and>
   merge_fees (feesRequest example_env ''0xa'' 0 1500000000000 42)
     [''makerFee'' \<mapsto> JBigNumber 7, ''takerFee'' \<mapsto> JBigNumber 3,
      ''feeRecipient'' \<mapsto> JString ''0xf'', ''makerTokenAmount'' \<mapsto> JBigNumber 1]
     ''makerTokenAmount'' = Some (JBigNumber 1)"
  by (simp add: merge_fees_def spread_def feesRequest_def toBaseUnitAmount_def DECIMALS_def)

text \<open>
  Claim C8, amended.  In the merged order every property carried by the fee response
  replaces the property of the skeleton with that name, and every other property is
  that of the skeleton: an economic field (exchange address, maker, taker, token
  addresses, maker and taker amounts, expiration, salt) is unchanged exactly when the
  response does not carry it or carries the same value.  A response with no properties
  other than maker fee, taker fee and fee recipient, as the type \<^verbatim>\<open>FeesResponse\<close>
  declares, changes only the fee fields.
\<close>

theorem merge_fees_response_wins:
  "(\<forall>k. merge_fees request feesResponse k =
          (case feesResponse k of None \<Rightarrow> request k | Some x \<Rightarrow> Some x)) \<and>
   (\<forall>k\<in>economic_fields. merge_fees request feesResponse k = request k \<longleftrightarrow>
          feesResponse k = None \<or> feesResponse k = request k) \<and>
   (dom feesResponse \<subseteq> fee_fields \<longrightarrow>
      (\<forall>k\<in>economic_fields. merge_fees request feesResponse k = request k) \<and>
      (\<forall>k. k \<notin> fee_fields \<longrightarrow> merge_fees request feesResponse k = request k))"
proof (intro conjI allI ballI impI)
  fix k
  show "merge_fees request feesResponse k =
          (case feesResponse k of None \<Rightarrow> request k | Some x \<Rightarrow> Some x)"
    by (simp add: merge_fees_def spread_def map_add_def)
  then show "merge_fees request feesResponse k = request k \<longleftrightarrow>
          feesResponse k = None \<or> feesResponse k = request k"
    by (cases "feesResponse k") auto
next
  fix k assume typed: "dom feesResponse \<subseteq> fee_fields" and "k \<in> economic_fields"
  then have "k \<notin> fee_fields"
    by (auto simp: economic_fields_def fee_fields_def)
  with typed have "feesResponse k = None" by auto
  then show "merge_fees request feesResponse k = request k"
    by (simp add: merge_fees_def spread_def map_add_def)
next
  fix k assume "dom feesResponse \<subseteq> fee_fields" and "k \<notin> fee_fields"
  then have "feesResponse k = None" by auto
  then show "merge_fees request feesResponse k = request k"
    by (simp add: merge_fees_def spread_def map_add_def)
qed

theorem merge_fees_response_wins_witness:
  "dom example_fees \<subseteq> fee_fields \<and>
   ''makerTokenAmount'' \<in> economic_fields \<and>
   merge_fees (feesRequest example_env ''0xa'' 0 1500000000000 42) example_fees ''makerTokenAmount''
     = Some (JBigNumber 5000000000000000000) \<and>
   ''makerFee'' \<in> dom example_fees \<and>
   merge_fees (feesRequest example_env ''0xa'' 0 1500000000000 42) example_fees ''makerFee''
     = Some (JBigNumber 7)"
proof -
  let ?req = "feesRequest example_env ''0xa'' 0 1500000000000 42"
  note frame = merge_fees_response_wins [of ?req example_fees]
  have e: "''makerTokenAmount'' \<in> economic_fields"
    by (simp add: economic_fields_def)
  have f: "''makerFee'' \<in> dom example_fees"
    by (simp add: example_fees_def)
  have r: "?req ''makerTokenAmount'' = Some (JBigNumber 5000000000000000000)"
    by (simp add: feesRequest_def toBaseUnitAmount_def DECIMALS_def)
  have v: "example_fees ''makerFee'' = Some (JBigNumber 7)"
    by (simp add: example_fees_def)
  from frame dom_example_fees e
  have "merge_fees ?req example_fees ''makerTokenAmount'' = ?req ''makerTokenAmount''"
    by blast
  moreover from frame
  have "merge_fees ?req example_fees ''makerFee'' =
          (case example_fees ''makerFee'' of None \<Rightarrow> ?req ''makerFee'' | Some x \<Rightarrow> Some x)"
    by blast
  ultimately show ?thesis using dom_example_fees e f r v by simp
qed









lemma rejections_append:
  "rejections (xs @ ys) outcomes = rejections xs outcomes @ rejections ys outcomes"
  by (simp add: rejections_def)
























end
